theory Spec2Isabelle
  imports Main
begin

section \<open>The configuration object\<close>

text \<open>
  \<^verbatim>\<open>BaseConfig\<close> declares twenty-two fields. The functions of
  \<^verbatim>\<open>base_config.py\<close> read and write two of them: the top-level \<^verbatim>\<open>ENVIRONMENT\<close>
  and the \<^verbatim>\<open>ENVIRONMENT\<close> attribute of the nested \<^verbatim>\<open>ELASTIC_APM\<close> object. The
  declarations of \<^verbatim>\<open>ElasticsearchAPMConfig\<close> and of \<^verbatim>\<open>EnvironmentType\<close> live in
  other modules, so the values the two attributes hold are a type parameter \<open>'v\<close>,
  and every other field sits in the extension slot of its record (the slot of
  \<open>ElasticsearchAPMConfig\<close> for the nested object, the slot of \<open>BaseConfig\<close> for
  the remaining top-level fields and for the fields a subclass adds).
\<close>

record 'v ElasticsearchAPMConfig =
  ENVIRONMENT :: 'v

record ('v, 'a) BaseConfig =
  ELASTIC_APM :: "('v, 'a) ElasticsearchAPMConfig_scheme"
  ENVIRONMENT :: 'v

text \<open>
  \<^verbatim>\<open>def customize(self): self.ELASTIC_APM.ENVIRONMENT = self.ENVIRONMENT\<close>
\<close>

definition customize ::
  "('v, 'a, 'b) BaseConfig_scheme \<Rightarrow> ('v, 'a, 'b) BaseConfig_scheme" where
  "customize self =
     self\<lparr>ELASTIC_APM :=
       (ELASTIC_APM self)\<lparr>ElasticsearchAPMConfig.ENVIRONMENT := BaseConfig.ENVIRONMENT self\<rparr>\<rparr>"

section \<open>Objects, references and the class attributes\<close>

text \<open>
  \<^verbatim>\<open>customize\<close> assigns to an attribute of the object it is given, and the registry
  keeps a reference to that same object, so objects live in a store: a reference is an
  address, an object is its runtime class and its field values, and a class call
  allocates the next free address. \<open>'c\<close> is the type of classes, \<open>'f\<close> the type of
  field values. The nested \<^verbatim>\<open>ELASTIC_APM\<close> object is part of the field values of
  its instance: a class call builds the nested objects of the new instance anew, so
  no two instances share one.
\<close>

type_synonym addr = nat

record ('c, 'f) pyobject =
  cls :: 'c
  field_values :: 'f

text \<open>
  \<^verbatim>\<open>
  __global_config: T | None = None
  __config_class_to_reload: type[T] | None = None
  \<close>
  The class body mangles the two names to \<^verbatim>\<open>_BaseConfig__global_config\<close> and
  \<^verbatim>\<open>_BaseConfig__config_class_to_reload\<close>. \<^verbatim>\<open>BaseConfig\<close> is a pydantic model, the
  names are annotated, start with a single underscore and are not \<^verbatim>\<open>ClassVar\<close>, so
  the metaclass takes both out of the class namespace and registers them as private
  attributes of the instances. Reading one of them on the class, which is what the
  class methods do, then yields its \<^verbatim>\<open>ModelPrivateAttr\<close> descriptor object, until
  \<^verbatim>\<open>set_global\<close> assigns the class attribute. What such an attribute holds is
  therefore one of three things: the descriptor object, \<^verbatim>\<open>None\<close>, or an assigned value.
\<close>

datatype 'a attribute = ModelPrivateAttr | PyNone | Assigned 'a

record ('c, 'f) state =
  heap :: "addr \<Rightarrow> ('c, 'f) pyobject"
  next_addr :: addr
  BaseConfig__global_config :: "addr attribute"
  BaseConfig__config_class_to_reload :: "'c attribute"

text \<open>The state when the module has been imported and no method has been called.\<close>

definition initial :: "(addr \<Rightarrow> ('c, 'f) pyobject) \<Rightarrow> ('c, 'f) state" where
  "initial h =
     \<lparr>heap = h, next_addr = 0,
      BaseConfig__global_config = ModelPrivateAttr,
      BaseConfig__config_class_to_reload = ModelPrivateAttr\<rparr>"

text \<open>
  The exceptions: \<^verbatim>\<open>AssertionError\<close> of \<^verbatim>\<open>global_config\<close>, \<^verbatim>\<open>RuntimeError\<close> of
  \<^verbatim>\<open>reload\<close>, the \<^verbatim>\<open>TypeError\<close> of calling an object that is not callable, and
  whatever the class call inside \<^verbatim>\<open>reload\<close> raises.
\<close>

datatype 'x error = AssertionError | RuntimeError | TypeError | Raised 'x

text \<open>A class call that succeeds: a new object of that class at the next free address.\<close>

definition alloc :: "'c \<Rightarrow> 'f \<Rightarrow> ('c, 'f) state \<Rightarrow> addr \<times> ('c, 'f) state" where
  "alloc T fs st =
     (next_addr st,
      st\<lparr>heap := (heap st)(next_addr st := \<lparr>cls = T, field_values = fs\<rparr>),
         next_addr := Suc (next_addr st)\<rparr>)"

section \<open>The registry operations\<close>

text \<open>
  \<^verbatim>\<open>
  def global_config(cls):
      if cls.__global_config is None:
          raise AssertionError("Global config not set. ...")
      return cls.__global_config
  \<close>
  The method returns what the attribute holds, whatever it is, unless that is
  \<^verbatim>\<open>None\<close>.
\<close>

definition global_config :: "('c, 'f) state \<Rightarrow> 'x error + addr attribute" where
  "global_config st =
     (if BaseConfig__global_config st = PyNone then Inl AssertionError
      else Inr (BaseConfig__global_config st))"

text \<open>
  \<^verbatim>\<open>
  def set_global(cls, config):
      if hasattr(config, "customize") and callable(config.customize):
          config.customize()
      cls.__global_config = config
      cls.__config_class_to_reload = type(config)
  \<close>
  The class attributes are those of the class the methods are called on; every call
  goes through the same class, as in \<^verbatim>\<open>BaseConfig.set_global(config)\<close> followed by
  \<^verbatim>\<open>BaseConfig.global_config()\<close>.
  \<^verbatim>\<open>config.customize\<close> is looked up through the runtime class of \<^verbatim>\<open>config\<close>: the
  parameter \<open>mro\<close> gives, for a class, the method the lookup finds (\<open>None\<close> when the
  attribute is missing or not callable). For \<^verbatim>\<open>BaseConfig\<close> and every subclass that
  does not override the method it is \<open>Some customize\<close>. A method is a function on the
  field values of the object; it has no raising branch, as the one in this file has
  none.
\<close>

definition run_customize ::
  "('c \<Rightarrow> ('f \<Rightarrow> 'f) option) \<Rightarrow> addr \<Rightarrow> ('c, 'f) state \<Rightarrow> ('c, 'f) state" where
  "run_customize mro config st =
     (case mro (cls (heap st config)) of
        None \<Rightarrow> st
      | Some method \<Rightarrow>
          st\<lparr>heap := (heap st)
                (config := (heap st config)\<lparr>field_values := method (field_values (heap st config))\<rparr>)\<rparr>)"

definition set_global ::
  "('c \<Rightarrow> ('f \<Rightarrow> 'f) option) \<Rightarrow> addr \<Rightarrow> ('c, 'f) state \<Rightarrow> ('c, 'f) state" where
  "set_global mro config st =
     (let st1 = run_customize mro config st;
          st2 = st1\<lparr>BaseConfig__global_config := Assigned config\<rparr>
      in st2\<lparr>BaseConfig__config_class_to_reload := Assigned (cls (heap st2 config))\<rparr>)"

text \<open>
  \<^verbatim>\<open>
  def reload(cls):
      if cls.__config_class_to_reload is None:
          raise RuntimeError("Cannot reload: config was never set with set_global().")
      new_instance = cls.__config_class_to_reload()
      cls.set_global(new_instance)
  \<close>
  The call in the third statement is a class call when the attribute holds a class:
  it runs the settings pipeline of the library, and \<open>new T\<close> is its outcome for the
  class \<open>T\<close> at the time of the call, the field values of the new object or the
  exception raised. When the attribute holds the descriptor object, the call raises
  \<^verbatim>\<open>TypeError\<close>, since a \<^verbatim>\<open>ModelPrivateAttr\<close> is not callable. An exception leaves the
  state as it is at the raise, so the result is the outcome paired with the state.
\<close>

definition reload ::
  "('c \<Rightarrow> ('f \<Rightarrow> 'f) option) \<Rightarrow> ('c \<Rightarrow> 'x error + 'f) \<Rightarrow> ('c, 'f) state
     \<Rightarrow> ('x error + unit) \<times> ('c, 'f) state" where
  "reload mro new st =
     (case BaseConfig__config_class_to_reload st of
        PyNone \<Rightarrow> (Inl RuntimeError, st)
      | ModelPrivateAttr \<Rightarrow> (Inl TypeError, st)
      | Assigned T \<Rightarrow>
          (case new T of
             Inl e \<Rightarrow> (Inl e, st)
           | Inr fs \<Rightarrow>
               (let (new_instance, st1) = alloc T fs st
                in (Inr (), set_global mro new_instance st1))))"

text \<open>
  In every state the operations reach from the initial one, the two attributes both
  hold their descriptor or both hold an assigned value, and the current instance is an
  allocated object.
\<close>

definition consistent :: "('c, 'f) state \<Rightarrow> bool" where
  "consistent st =
     (case BaseConfig__global_config st of
        ModelPrivateAttr \<Rightarrow> BaseConfig__config_class_to_reload st = ModelPrivateAttr
      | PyNone \<Rightarrow> False
      | Assigned a \<Rightarrow>
          a < next_addr st
          \<and> (case BaseConfig__config_class_to_reload st of Assigned T \<Rightarrow> True | _ \<Rightarrow> False))"

section \<open>A concrete run\<close>

text \<open>
  One subclass \<^verbatim>\<open>MyAppConfig\<close> that does not override \<^verbatim>\<open>customize\<close>, and an instance
  of it whose nested \<^verbatim>\<open>ELASTIC_APM.ENVIRONMENT\<close> was set apart from the top-level
  \<^verbatim>\<open>ENVIRONMENT\<close> (as \<^verbatim>\<open>ELASTIC_APM__ENVIRONMENT=PRODUCTION\<close> in the environment
  does). \<open>fresh_state\<close> is the state after \<^verbatim>\<open>config = MyAppConfig()\<close> in a new process,
  \<open>example_state\<close> the state after \<^verbatim>\<open>BaseConfig.set_global(config)\<close>; then a class
  call that raises and one that succeeds.
\<close>

definition example_config :: "(string, unit) BaseConfig" where
  "example_config =
     \<lparr>ELASTIC_APM = \<lparr>ElasticsearchAPMConfig.ENVIRONMENT = ''PRODUCTION''\<rparr>,
      ENVIRONMENT = ''LOCAL''\<rparr>"

definition example_mro ::
  "string \<Rightarrow> ((string, unit) BaseConfig \<Rightarrow> (string, unit) BaseConfig) option" where
  "example_mro T = Some customize"

definition h0 :: "addr \<Rightarrow> (string, (string, unit) BaseConfig) pyobject" where
  "h0 a = \<lparr>cls = ''BaseConfig'', field_values = example_config\<rparr>"

definition fresh_state :: "(string, (string, unit) BaseConfig) state" where
  "fresh_state = snd (alloc ''MyAppConfig'' example_config (initial h0))"

definition example_state :: "(string, (string, unit) BaseConfig) state" where
  "example_state = set_global example_mro 0 fresh_state"

definition failing_new :: "string \<Rightarrow> string error + (string, unit) BaseConfig" where
  "failing_new T = Inl (Raised ''ValidationError'')"

definition example_new :: "string \<Rightarrow> string error + (string, unit) BaseConfig" where
  "example_new T = Inr example_config"

section \<open>The settings sources and their order\<close>

text \<open>
  The options of \<^verbatim>\<open>model_config\<close> that the environment-style sources read:
  \<^verbatim>\<open>env_nested_delimiter="__"\<close> and \<^verbatim>\<open>env_ignore_empty=True\<close>.
\<close>

definition env_nested_delimiter :: string where
  "env_nested_delimiter = ''__''"

definition env_ignore_empty :: bool where
  "env_ignore_empty = True"

text \<open>
  The source objects \<^verbatim>\<open>settings_customise_sources\<close> receives and builds: the four the
  library passes in, and the two the method constructs from \<^verbatim>\<open>settings_cls\<close>.
\<close>

datatype 'c source =
    InitSettingsSource
  | EnvSettingsSource
  | DotEnvSettingsSource
  | SecretsSettingsSource
  | PyprojectTomlConfigSettingsSource 'c
  | TomlConfigSettingsSource 'c

text \<open>
  \<^verbatim>\<open>
  def settings_customise_sources(cls, settings_cls, init_settings, env_settings,
                                 dotenv_settings, file_secret_settings):
      return (
          file_secret_settings,
          PyprojectTomlConfigSettingsSource(settings_cls),
          TomlConfigSettingsSource(settings_cls),
          env_settings,
          dotenv_settings,
          init_settings,
      )
  \<close>
\<close>

definition settings_customise_sources ::
  "'c \<Rightarrow> 'c source \<Rightarrow> 'c source \<Rightarrow> 'c source \<Rightarrow> 'c source \<Rightarrow> 'c source list" where
  "settings_customise_sources settings_cls init_settings env_settings dotenv_settings
       file_secret_settings =
     [file_secret_settings,
      PyprojectTomlConfigSettingsSource settings_cls,
      TomlConfigSettingsSource settings_cls,
      env_settings,
      dotenv_settings,
      init_settings]"

section \<open>The precedence merger\<close>

text \<open>
  The merge of the source results is done by the settings library, whose code is not
  part of \<^verbatim>\<open>base_config.py\<close>; the definitions of this section follow sections 3 and
  4.1 of the specification.
\<close>

type_synonym path = "string list"

text \<open>
  Modelled from the spec: the data model of the merger, which \<^verbatim>\<open>base_config.py\<close> does
  not contain. "MergedTree: a nested mapping from key segment to either a scalar
  value or another MergedTree." Scalars are kept in their textual form; a mapping is
  a map from segments, so two trees are equal when they bind the same keys to the same
  values.
\<close>

datatype MergedTree = Scalar string | Object "string \<Rightarrow> MergedTree option"

text \<open>
  Modelled from the spec: the results of a source provider, which \<^verbatim>\<open>base_config.py\<close>
  does not contain. "RawEntry: a key path (ordered sequence of string segments)
  mapped to a scalar or structured raw value. SourceResult: an ordered list of
  RawEntry produced by one Source Provider".
\<close>

type_synonym RawEntry = "path \<times> MergedTree"
type_synonym SourceResult = "RawEntry list"

text \<open>
  Modelled from the spec: the override rule of the merger, which \<^verbatim>\<open>base_config.py\<close>
  does not contain. "A later (higher-precedence) insertion of a scalar at a key path
  overwrites any existing value at that path; inserting a nested object merges
  recursively into an existing nested object at that path, otherwise replaces it
  outright." \<open>put v old\<close> is the value at a path after \<open>v\<close> is inserted there over
  the existing \<open>old\<close>.
\<close>

primrec put :: "MergedTree \<Rightarrow> MergedTree option \<Rightarrow> MergedTree" where
  "put (Scalar x) = (\<lambda>old. Scalar x)"
| "put (Object m) = (\<lambda>old.
     case old of
       Some (Object olds) \<Rightarrow>
         Object (\<lambda>k. case map_option put (m k) of
                        None \<Rightarrow> olds k
                      | Some merge_child \<Rightarrow> Some (merge_child (olds k)))
     | _ \<Rightarrow> Object m)"

text \<open>
  Modelled from the spec: the insertion of one entry at its key path, which
  \<^verbatim>\<open>base_config.py\<close> does not contain. On the way down an existing nested object is
  entered; anything else on the way (nothing, or a scalar) is replaced by the new
  nested object: "the higher-priority shape wins wholesale for that subtree".
\<close>

primrec insert_at :: "path \<Rightarrow> MergedTree \<Rightarrow> MergedTree option \<Rightarrow> MergedTree" where
  "insert_at [] v = (\<lambda>old. put v old)"
| "insert_at (k # ks) v = (\<lambda>old.
     case old of
       Some (Object m) \<Rightarrow> Object (m(k \<mapsto> insert_at ks v (m k)))
     | _ \<Rightarrow> Object [k \<mapsto> insert_at ks v None])"

definition insert_entry :: "RawEntry \<Rightarrow> MergedTree \<Rightarrow> MergedTree" where
  "insert_entry e t = insert_at (fst e) (snd e) (Some t)"

definition insert_source :: "SourceResult \<Rightarrow> MergedTree \<Rightarrow> MergedTree" where
  "insert_source s t = fold insert_entry s t"

text \<open>
  Modelled from the spec: the merger \<^verbatim>\<open>merge(sources)\<close>, which \<^verbatim>\<open>base_config.py\<close> does
  not contain. The list comes highest priority first; "iterate sources from lowest
  to highest precedence, inserting each source's entries into the accumulating tree";
  "empty source list yields an empty tree".
\<close>

definition merge :: "SourceResult list \<Rightarrow> MergedTree" where
  "merge sources = fold insert_source (rev sources) (Object Map.empty)"

text \<open>
  Modelled from the spec: the splitting of an environment-style key, which
  \<^verbatim>\<open>base_config.py\<close> does not contain. "Environment-style sources encode nesting by
  joining key segments with a fixed delimiter; the Merger must split on this
  delimiter before insertion". The split is the one of \<^verbatim>\<open>str.split\<close>: left to right,
  at each occurrence of the delimiter.
\<close>

fun split_acc :: "string \<Rightarrow> string \<Rightarrow> string \<Rightarrow> string list" where
  "split_acc d acc [] = [rev acc]"
| "split_acc d acc (c # cs) =
     (if d \<noteq> [] \<and> take (length d) (c # cs) = d
      then rev acc # split_acc d [] (drop (length d) (c # cs))
      else split_acc d (c # acc) cs)"

definition split_on :: "string \<Rightarrow> string \<Rightarrow> path" where
  "split_on d s = split_acc d [] s"

fun join :: "string \<Rightarrow> path \<Rightarrow> string" where
  "join d [] = []"
| "join d [s] = s"
| "join d (s # t # ts) = s @ d @ join d (t # ts)"

text \<open>
  Modelled from the spec: the environment-style source provider, which
  \<^verbatim>\<open>base_config.py\<close> does not contain. It turns the flat key-value pairs of its origin
  into entries; with \<^verbatim>\<open>env_ignore_empty\<close> a pair whose value is the empty string is
  ignored entirely ("some providers ignore empty values entirely"), and each remaining
  key is split on \<^verbatim>\<open>env_nested_delimiter\<close>.
\<close>

definition env_entries :: "(string \<times> string) list \<Rightarrow> SourceResult" where
  "env_entries raw =
     map (\<lambda>(k, v). (split_on env_nested_delimiter k, Scalar v))
       (filter (\<lambda>(k, v). \<not> (env_ignore_empty \<and> v = [])) raw)"

text \<open>
  Modelled from the spec: the six origins and the \<^verbatim>\<open>fetch\<close> of each source provider,
  which \<^verbatim>\<open>base_config.py\<close> does not contain. The file readers are "pluggable source
  providers", so the secret files, the two TOML files and the constructor arguments
  are given by the entries read from them; the operating-system environment and the
  \<^verbatim>\<open>.env\<close> file are flat key-value pairs.
\<close>

record origins =
  secret_files :: SourceResult
  pyproject_toml :: SourceResult
  toml_file :: SourceResult
  os_environ :: "(string \<times> string) list"
  env_file :: "(string \<times> string) list"
  init_kwargs :: SourceResult

primrec fetch :: "origins \<Rightarrow> 'c source \<Rightarrow> SourceResult" where
  "fetch w InitSettingsSource = init_kwargs w"
| "fetch w EnvSettingsSource = env_entries (os_environ w)"
| "fetch w DotEnvSettingsSource = env_entries (env_file w)"
| "fetch w SecretsSettingsSource = secret_files w"
| "fetch w (PyprojectTomlConfigSettingsSource settings_cls) = pyproject_toml w"
| "fetch w (TomlConfigSettingsSource settings_cls) = toml_file w"

text \<open>
  Modelled from the spec: the materialization step that consults the sources, which
  \<^verbatim>\<open>base_config.py\<close> does not contain. "The core calls all six in the fixed order on
  every materialization": the list is the one \<^verbatim>\<open>settings_customise_sources\<close> returns
  for the four sources of the library.
\<close>

definition sources_of :: "origins \<Rightarrow> 'c \<Rightarrow> SourceResult list" where
  "sources_of w settings_cls =
     map (fetch w)
       (settings_customise_sources settings_cls InitSettingsSource EnvSettingsSource
          DotEnvSettingsSource SecretsSettingsSource)"

definition build_values :: "origins \<Rightarrow> 'c \<Rightarrow> MergedTree" where
  "build_values w settings_cls = merge (sources_of w settings_cls)"

section \<open>Vocabulary for the merged tree\<close>

text \<open>The value of a tree at a key path, and the nested object that holds \<open>v\<close> at a path.\<close>

primrec lookup :: "path \<Rightarrow> MergedTree \<Rightarrow> MergedTree option" where
  "lookup [] = (\<lambda>t. Some t)"
| "lookup (k # ks) = (\<lambda>t.
     case t of
       Scalar x \<Rightarrow> None
     | Object m \<Rightarrow> (case m k of None \<Rightarrow> None | Some child \<Rightarrow> lookup ks child))"

definition lookup_opt :: "path \<Rightarrow> MergedTree option \<Rightarrow> MergedTree option" where
  "lookup_opt K old = (case old of None \<Rightarrow> None | Some t \<Rightarrow> lookup K t)"

primrec nest :: "path \<Rightarrow> MergedTree \<Rightarrow> MergedTree" where
  "nest [] v = v"
| "nest (k # ks) v = Object [k \<mapsto> nest ks v]"

text \<open>
  An entry supplies the scalar \<open>v\<close> at the path \<open>K\<close> when its own path is a prefix of \<open>K\<close>
  and its value holds \<open>Scalar v\<close> at the rest of \<open>K\<close>.
\<close>

fun strip_prefix :: "path \<Rightarrow> path \<Rightarrow> path option" where
  "strip_prefix [] K = Some K"
| "strip_prefix (a # p) [] = None"
| "strip_prefix (a # p) (b # K) = (if a = b then strip_prefix p K else None)"

definition supplies :: "RawEntry \<Rightarrow> path \<Rightarrow> string \<Rightarrow> bool" where
  "supplies e K v =
     (case strip_prefix (fst e) K of
        None \<Rightarrow> False
      | Some q \<Rightarrow> lookup q (snd e) = Some (Scalar v))"

text \<open>
  An entry touches \<open>K\<close> when it holds a value at \<open>K\<close>, below \<open>K\<close>, or a scalar at a
  proper prefix of \<open>K\<close>. It does not touch \<open>K\<close> when its path leaves \<open>K\<close>, or when its
  value, followed along the rest of \<open>K\<close>, reaches a nested object without the next
  segment (\<open>misses\<close>).
\<close>

primrec misses :: "path \<Rightarrow> MergedTree \<Rightarrow> bool" where
  "misses [] = (\<lambda>t. False)"
| "misses (k # ks) = (\<lambda>t.
     case t of
       Scalar x \<Rightarrow> False
     | Object m \<Rightarrow> (case m k of None \<Rightarrow> True | Some child \<Rightarrow> misses ks child))"

fun touches_at :: "path \<Rightarrow> MergedTree \<Rightarrow> path \<Rightarrow> bool" where
  "touches_at [] val K = (\<not> misses K val)"
| "touches_at (a # p) val [] = True"
| "touches_at (a # p) val (b # K) = (a = b \<and> touches_at p val K)"

definition touches :: "RawEntry \<Rightarrow> path \<Rightarrow> bool" where
  "touches e K = touches_at (fst e) (snd e) K"

text \<open>
  A source defines \<open>K\<close> as \<open>v\<close> when the last of its entries that touches \<open>K\<close> supplies
  \<open>v\<close> there (\<open>last_word\<close> reads the entries from the last one back).
\<close>

fun last_word :: "RawEntry list \<Rightarrow> path \<Rightarrow> string \<Rightarrow> bool" where
  "last_word [] K v = False"
| "last_word (e # es) K v =
     (if supplies e K v then True else if touches e K then False else last_word es K v)"

definition source_defines :: "SourceResult \<Rightarrow> path \<Rightarrow> string \<Rightarrow> bool" where
  "source_defines s K v = last_word (rev s) K v"

definition source_touches :: "SourceResult \<Rightarrow> path \<Rightarrow> bool" where
  "source_touches s K = list_ex (\<lambda>e. touches e K) s"

text \<open>
  A segment that survives the round trip through \<^verbatim>\<open>__\<close>: it holds no two underscores
  in a row and does not end in an underscore.
\<close>

fun seg_ok :: "string \<Rightarrow> bool" where
  "seg_ok [] = True"
| "seg_ok [c] = (c \<noteq> CHR ''_'')"
| "seg_ok (c # c' # cs) = (\<not> (c = CHR ''_'' \<and> c' = CHR ''_'') \<and> seg_ok (c' # cs))"

section \<open>Concrete origins\<close>

text \<open>
  The example of section 4.1: one source sets \<^verbatim>\<open>A=5\<close>, lower ones set \<^verbatim>\<open>A.B\<close>.
\<close>

definition cx_origins :: origins where
  "cx_origins =
     \<lparr>secret_files = [],
      pyproject_toml = [([''A''], Scalar ''5'')],
      toml_file = [([''A'', ''B''], Scalar ''6'')],
      os_environ = [(''A__B'', ''7'')],
      env_file = [],
      init_kwargs = []\<rparr>"

definition example_origins :: origins where
  "example_origins =
     \<lparr>secret_files = [([''REDIS'', ''PASSWORD''], Scalar ''hunter2'')],
      pyproject_toml = [],
      toml_file = [([''ELASTIC_APM''], Object [''ENVIRONMENT'' \<mapsto> Scalar ''PRODUCTION''])],
      os_environ = [(''ELASTIC_APM__ENVIRONMENT'', ''DEV''), (''REDIS__PORT'', ''6379'')],
      env_file = [(''DEBUG'', ''true'')],
      init_kwargs = [([''DEBUG''], Scalar ''false'')]\<rparr>"

section \<open>Properties of the registry\<close>

lemma heap_run_customize:
  "heap (run_customize mro x st) =
     (case mro (cls (heap st x)) of
        None \<Rightarrow> heap st
      | Some method \<Rightarrow> (heap st)(x := (heap st x)\<lparr>field_values := method (field_values (heap st x))\<rparr>))"
  by (simp add: run_customize_def split: option.split)

lemma cls_run_customize: "cls (heap (run_customize mro x st) a) = cls (heap st a)"
  by (simp add: heap_run_customize split: option.split)

lemma attrs_run_customize:
  "BaseConfig__global_config (run_customize mro x st) = BaseConfig__global_config st"
  "BaseConfig__config_class_to_reload (run_customize mro x st) =
     BaseConfig__config_class_to_reload st"
  "next_addr (run_customize mro x st) = next_addr st"
  by (simp_all add: run_customize_def split: option.split)

lemma heap_set_global: "heap (set_global mro x st) = heap (run_customize mro x st)"
  by (simp add: set_global_def Let_def)

lemma current_set_global: "BaseConfig__global_config (set_global mro x st) = Assigned x"
  by (simp add: set_global_def Let_def)

lemma bound_set_global:
  "BaseConfig__config_class_to_reload (set_global mro x st) = Assigned (cls (heap st x))"
  by (simp add: set_global_def Let_def cls_run_customize)

lemma next_addr_set_global: "next_addr (set_global mro x st) = next_addr st"
  by (simp add: set_global_def Let_def attrs_run_customize)

lemma cls_heap_set_global: "cls (heap (set_global mro x st) a) = cls (heap st a)"
  by (simp add: heap_set_global cls_run_customize)

lemma reload_Assigned:
  "BaseConfig__config_class_to_reload st = Assigned T \<Longrightarrow> new T = Inr fs \<Longrightarrow>
     reload mro new st = (Inr (), set_global mro (next_addr st) (snd (alloc T fs st)))"
  by (simp add: reload_def alloc_def)

lemma heap_reload:
  assumes "BaseConfig__config_class_to_reload st = Assigned T" and "new T = Inr fs"
  shows "heap (snd (reload mro new st)) =
     (heap st)(next_addr st :=
        \<lparr>cls = T, field_values = (case mro T of None \<Rightarrow> fs | Some method \<Rightarrow> method fs)\<rparr>)"
  using assms
  by (simp add: reload_Assigned heap_set_global heap_run_customize alloc_def
           split: option.split)

lemma consistent_initial: "consistent (initial h)"
  by (simp add: consistent_def initial_def)

lemma consistent_alloc: "consistent st \<Longrightarrow> consistent (snd (alloc T fs st))"
  by (auto simp: consistent_def alloc_def split: attribute.splits)

lemma consistent_set_global:
  "x < next_addr st \<Longrightarrow> consistent (set_global mro x st)"
  by (simp add: consistent_def current_set_global bound_set_global next_addr_set_global)

lemma consistent_reload: "consistent st \<Longrightarrow> consistent (snd (reload mro new st))"
  by (auto simp: reload_def alloc_def intro!: consistent_set_global
           split: attribute.split sum.split)

lemma consistent_never_None:
  "consistent st \<Longrightarrow> BaseConfig__global_config st \<noteq> PyNone
     \<and> BaseConfig__config_class_to_reload st \<noteq> PyNone"
  by (auto simp: consistent_def split: attribute.splits)

lemma fresh_state_attrs:
  "BaseConfig__global_config fresh_state = ModelPrivateAttr"
  "BaseConfig__config_class_to_reload fresh_state = ModelPrivateAttr"
  "next_addr fresh_state = Suc 0"
  "heap fresh_state 0 = \<lparr>cls = ''MyAppConfig'', field_values = example_config\<rparr>"
  by (simp_all add: fresh_state_def alloc_def initial_def)

lemma example_state_attrs:
  "BaseConfig__global_config example_state = Assigned 0"
  "BaseConfig__config_class_to_reload example_state = Assigned ''MyAppConfig''"
  "next_addr example_state = Suc 0"
  by (simp_all add: example_state_def fresh_state_attrs current_set_global
        bound_set_global next_addr_set_global)

lemma example_state_heap:
  "heap example_state 0 = \<lparr>cls = ''MyAppConfig'', field_values = customize example_config\<rparr>"
  by (simp add: example_state_def fresh_state_attrs heap_set_global heap_run_customize
        example_mro_def)

lemma consistent_example_state: "consistent example_state"
  by (simp add: consistent_def example_state_attrs)

text \<open>
  C3. Before any \<^verbatim>\<open>set_global\<close>, \<^verbatim>\<open>global_config()\<close> does not raise: the attribute
  holds its descriptor object, which is not \<^verbatim>\<open>None\<close>, and the method returns it.
  \<^verbatim>\<open>AssertionError\<close> is raised exactly when the attribute holds \<^verbatim>\<open>None\<close>. Right after
  \<^verbatim>\<open>set_global(x)\<close> the method returns \<open>x\<close>.
\<close>

theorem global_config_before_set:
  "(global_config (initial h) :: 'x error + addr attribute) = Inr ModelPrivateAttr
   \<and> (global_config (initial h) :: 'x error + addr attribute) \<noteq> Inl AssertionError
   \<and> ((global_config st :: 'x error + addr attribute) = Inl AssertionError
        \<longleftrightarrow> BaseConfig__global_config st = PyNone)
   \<and> (global_config (set_global mro x st) :: 'x error + addr attribute) = Inr (Assigned x)"
  by (simp add: global_config_def current_set_global initial_def)

text \<open>
  C4. Before any \<^verbatim>\<open>set_global\<close>, \<^verbatim>\<open>reload()\<close> raises \<^verbatim>\<open>TypeError\<close>, not
  \<^verbatim>\<open>RuntimeError\<close>: the attribute holds its descriptor object, the test for \<^verbatim>\<open>None\<close>
  fails and the call of the descriptor raises. The state is unchanged, and
  \<^verbatim>\<open>global_config()\<close> in the same state raises nothing.
\<close>

theorem reload_before_set:
  "reload mro new (initial h) = (Inl TypeError, initial h)
   \<and> fst (reload mro new (initial h)) \<noteq> Inl RuntimeError
   \<and> (global_config (initial h) :: 'x error + addr attribute) = Inr ModelPrivateAttr"
  by (simp add: reload_def global_config_def initial_def)

text \<open>
  C5. \<^verbatim>\<open>set_global(x)\<close> runs the \<^verbatim>\<open>customize\<close> method of \<open>x\<close>'s class on \<open>x\<close> (and
  changes no other object), stores \<open>x\<close> as the current instance and the runtime class
  of \<open>x\<close> as the class to reload. The function has no failing outcome, and a second
  call overwrites both attributes with the later instance and its class.
\<close>

theorem set_global_effect:
  "heap (set_global mro x st) =
     (case mro (cls (heap st x)) of
        None \<Rightarrow> heap st
      | Some method \<Rightarrow>
          (heap st)(x := (heap st x)\<lparr>field_values := method (field_values (heap st x))\<rparr>))
   \<and> BaseConfig__global_config (set_global mro x st) = Assigned x
   \<and> BaseConfig__config_class_to_reload (set_global mro x st) = Assigned (cls (heap st x))
   \<and> BaseConfig__global_config (set_global mro y (set_global mro x st)) = Assigned y
   \<and> BaseConfig__config_class_to_reload (set_global mro y (set_global mro x st))
       = Assigned (cls (heap st y))"
proof (intro conjI)
  show "heap (set_global mro x st) =
     (case mro (cls (heap st x)) of
        None \<Rightarrow> heap st
      | Some method \<Rightarrow>
          (heap st)(x := (heap st x)\<lparr>field_values := method (field_values (heap st x))\<rparr>))"
    by (simp add: heap_set_global heap_run_customize)
  show "BaseConfig__config_class_to_reload (set_global mro y (set_global mro x st))
       = Assigned (cls (heap st y))"
    by (simp add: bound_set_global cls_heap_set_global)
qed (simp_all add: current_set_global bound_set_global)

text \<open>
  C2. In a state where an instance \<open>i\<close> is registered, a \<^verbatim>\<open>reload\<close> whose class call
  raises \<open>e\<close> propagates \<open>e\<close> and leaves the whole state as it was: the current
  instance, the class to reload and every object; \<^verbatim>\<open>global_config()\<close> right after
  returns \<open>i\<close>.
\<close>

theorem reload_all_or_nothing:
  assumes "BaseConfig__global_config st = Assigned i"
    and "BaseConfig__config_class_to_reload st = Assigned T"
    and "new T = Inl (e :: 'x error)"
  shows "reload mro new st = (Inl e, st)
     \<and> BaseConfig__global_config (snd (reload mro new st)) = Assigned i
     \<and> BaseConfig__config_class_to_reload (snd (reload mro new st)) = Assigned T
     \<and> heap (snd (reload mro new st)) = heap st
     \<and> (global_config (snd (reload mro new st)) :: 'x error + addr attribute)
         = Inr (Assigned i)"
  using assms by (simp add: reload_def global_config_def)

theorem reload_all_or_nothing_witness:
  "BaseConfig__global_config example_state = Assigned 0
   \<and> BaseConfig__config_class_to_reload example_state = Assigned ''MyAppConfig''
   \<and> failing_new ''MyAppConfig'' = Inl (Raised ''ValidationError'')
   \<and> reload example_mro failing_new example_state
        = (Inl (Raised ''ValidationError''), example_state)
   \<and> (global_config (snd (reload example_mro failing_new example_state))
         :: string error + addr attribute) = Inr (Assigned 0)"
proof -
  have a: "BaseConfig__global_config example_state = Assigned 0"
    by (simp add: example_state_attrs)
  have b: "BaseConfig__config_class_to_reload example_state = Assigned ''MyAppConfig''"
    by (simp add: example_state_attrs)
  have c: "failing_new ''MyAppConfig'' = Inl (Raised ''ValidationError'')"
    by (simp add: failing_new_def)
  from reload_all_or_nothing
         [of example_state 0 "''MyAppConfig''" failing_new "Raised ''ValidationError''"
             example_mro, OF a b c]
    a b c
  show ?thesis by blast
qed

text \<open>
  C6. In a state with instance \<open>i\<close> registered under class \<open>T\<close>, a \<^verbatim>\<open>reload\<close> whose
  class call succeeds with the field values \<open>fs\<close> is \<^verbatim>\<open>set_global\<close> of a new object.
  Afterwards the store holds, at a reference that was free before and differs from
  \<open>i\<close>, an object of class \<open>T\<close> whose fields are \<open>fs\<close> with the \<^verbatim>\<open>customize\<close> method of
  \<open>T\<close> applied to them, and is otherwise what it was; so the object at \<open>i\<close> is
  unchanged. The current instance is the new object and the class to reload is still
  \<open>T\<close>.
\<close>

theorem reload_builds_fresh_instance:
  assumes "consistent st"
    and "BaseConfig__global_config st = Assigned i"
    and "BaseConfig__config_class_to_reload st = Assigned T"
    and "(new :: 'c \<Rightarrow> 'x error + 'f) T = Inr fs"
  shows "reload mro new st = (Inr (), set_global mro (next_addr st) (snd (alloc T fs st)))
     \<and> heap (snd (reload mro new st)) =
         (heap st)(next_addr st :=
            \<lparr>cls = T,
             field_values = (case mro T of None \<Rightarrow> fs | Some method \<Rightarrow> method fs)\<rparr>)
     \<and> (global_config (snd (reload mro new st)) :: 'x error + addr attribute)
         = Inr (Assigned (next_addr st))
     \<and> next_addr st \<noteq> i
     \<and> cls (heap (snd (reload mro new st)) (next_addr st)) = T
     \<and> BaseConfig__config_class_to_reload (snd (reload mro new st)) = Assigned T
     \<and> heap (snd (reload mro new st)) i = heap st i
     \<and> next_addr (snd (reload mro new st)) = Suc (next_addr st)"
proof -
  from assms(1,2) have lt: "i < next_addr st"
    by (simp add: consistent_def)
  note r = reload_Assigned [of st T new fs mro, OF assms(3,4)]
  note h = heap_reload [of st T new fs mro, OF assms(3,4)]
  have hi: "heap (snd (reload mro new st)) i = heap st i"
    using lt by (simp add: h)
  have c: "cls (heap (snd (reload mro new st)) (next_addr st)) = T"
    by (simp add: h)
  have g: "(global_config (snd (reload mro new st)) :: 'x error + addr attribute)
         = Inr (Assigned (next_addr st))"
    by (simp add: r global_config_def current_set_global)
  have b: "BaseConfig__config_class_to_reload (snd (reload mro new st)) = Assigned T"
    by (simp add: r bound_set_global alloc_def)
  have n: "next_addr (snd (reload mro new st)) = Suc (next_addr st)"
    by (simp add: r next_addr_set_global alloc_def)
  from lt have ne: "next_addr st \<noteq> i" by simp
  from r h g ne c b hi n show ?thesis by blast
qed

theorem reload_builds_fresh_instance_witness:
  "consistent example_state
   \<and> BaseConfig__global_config example_state = Assigned 0
   \<and> BaseConfig__config_class_to_reload example_state = Assigned ''MyAppConfig''
   \<and> example_new ''MyAppConfig'' = Inr example_config
   \<and> ElasticsearchAPMConfig.ENVIRONMENT (ELASTIC_APM example_config) = ''PRODUCTION''
   \<and> heap (snd (reload example_mro example_new example_state)) 1
       = \<lparr>cls = ''MyAppConfig'',
          field_values =
            \<lparr>ELASTIC_APM = \<lparr>ElasticsearchAPMConfig.ENVIRONMENT = ''LOCAL''\<rparr>,
             ENVIRONMENT = ''LOCAL''\<rparr>\<rparr>
   \<and> (global_config (snd (reload example_mro example_new example_state))
         :: string error + addr attribute) = Inr (Assigned 1)
   \<and> heap (snd (reload example_mro example_new example_state)) 0 = heap example_state 0"
proof -
  have a: "BaseConfig__global_config example_state = Assigned 0"
    by (simp add: example_state_attrs)
  have b: "BaseConfig__config_class_to_reload example_state = Assigned ''MyAppConfig''"
    by (simp add: example_state_attrs)
  have c: "example_new ''MyAppConfig'' = Inr example_config"
    by (simp add: example_new_def)
  have p: "ElasticsearchAPMConfig.ENVIRONMENT (ELASTIC_APM example_config) = ''PRODUCTION''"
    by (simp add: example_config_def)
  have n: "next_addr example_state = 1"
    by (simp add: example_state_attrs)
  note t = reload_builds_fresh_instance
         [of example_state 0 "''MyAppConfig''" example_new example_config example_mro,
          OF consistent_example_state a b c, unfolded n]
  from t have "heap (snd (reload example_mro example_new example_state)) =
      (heap example_state)(1 :=
        \<lparr>cls = ''MyAppConfig'',
         field_values = (case example_mro ''MyAppConfig'' of None \<Rightarrow> example_config
                         | Some method \<Rightarrow> method example_config)\<rparr>)"
    by blast
  then have h: "heap (snd (reload example_mro example_new example_state)) 1
       = \<lparr>cls = ''MyAppConfig'',
          field_values =
            \<lparr>ELASTIC_APM = \<lparr>ElasticsearchAPMConfig.ENVIRONMENT = ''LOCAL''\<rparr>,
             ENVIRONMENT = ''LOCAL''\<rparr>\<rparr>"
    by (simp add: example_mro_def customize_def example_config_def)
  from t h consistent_example_state a b c p show ?thesis by blast
qed

text \<open>
  C7. The method runs once per successful \<^verbatim>\<open>set_global\<close>, from whatever state \<open>st\<close>
  the call is made (the first call of a process included), and once per successful
  \<^verbatim>\<open>reload\<close> from a state \<open>st'\<close> with a class to reload: the fields of the instance the
  registry then returns are the method applied one time to the fields the instance
  had (for \<^verbatim>\<open>reload\<close>: to the fields the class call produced). The method runs first,
  on a state whose current instance is still the earlier one, and the two attributes
  are assigned after it. When the method is \<^verbatim>\<open>BaseConfig.customize\<close>, the nested
  \<^verbatim>\<open>ELASTIC_APM.ENVIRONMENT\<close> of the registered instance equals its top-level
  \<^verbatim>\<open>ENVIRONMENT\<close>, which is the value the instance had before the call.
\<close>

theorem customize_runs_once:
  assumes "mro (cls (heap st x)) = Some method"
    and "BaseConfig__config_class_to_reload st' = Assigned T"
    and "(new :: 'c \<Rightarrow> 'x error + ('v, 'a, 'b) BaseConfig_scheme) T = Inr fs"
    and "mro T = Some method'"
  shows "(global_config (set_global mro x st) :: 'x error + addr attribute) = Inr (Assigned x)
     \<and> field_values (heap (set_global mro x st) x) = method (field_values (heap st x))
     \<and> BaseConfig__global_config (run_customize mro x st) = BaseConfig__global_config st
     \<and> set_global mro x st =
         (run_customize mro x st)
           \<lparr>BaseConfig__global_config := Assigned x,
            BaseConfig__config_class_to_reload := Assigned (cls (heap st x))\<rparr>
     \<and> (method = customize \<longrightarrow>
          ElasticsearchAPMConfig.ENVIRONMENT
            (ELASTIC_APM (field_values (heap (set_global mro x st) x)))
          = BaseConfig.ENVIRONMENT (field_values (heap (set_global mro x st) x))
        \<and> BaseConfig.ENVIRONMENT (field_values (heap (set_global mro x st) x))
          = BaseConfig.ENVIRONMENT (field_values (heap st x)))
     \<and> (global_config (snd (reload mro new st')) :: 'x error + addr attribute)
         = Inr (Assigned (next_addr st'))
     \<and> field_values (heap (snd (reload mro new st')) (next_addr st')) = method' fs"
proof -
  have s: "field_values (heap (set_global mro x st) x) = method (field_values (heap st x))"
    using assms(1) by (simp add: heap_set_global heap_run_customize)
  note r = reload_Assigned [of st' T new fs mro, OF assms(2,3)]
  have f: "field_values (heap (snd (reload mro new st')) (next_addr st')) = method' fs"
    using assms(4) by (simp add: heap_reload [of st' T new fs mro, OF assms(2,3)])
  have o: "set_global mro x st =
         (run_customize mro x st)
           \<lparr>BaseConfig__global_config := Assigned x,
            BaseConfig__config_class_to_reload := Assigned (cls (heap st x))\<rparr>"
    by (simp add: set_global_def Let_def cls_run_customize)
  have g: "(global_config (set_global mro x st) :: 'x error + addr attribute)
      = Inr (Assigned x)"
    by (simp add: global_config_def current_set_global)
  have g': "(global_config (snd (reload mro new st')) :: 'x error + addr attribute)
      = Inr (Assigned (next_addr st'))"
    by (simp add: r global_config_def current_set_global)
  have c: "method = customize \<longrightarrow>
          ElasticsearchAPMConfig.ENVIRONMENT
            (ELASTIC_APM (field_values (heap (set_global mro x st) x)))
          = BaseConfig.ENVIRONMENT (field_values (heap (set_global mro x st) x))
        \<and> BaseConfig.ENVIRONMENT (field_values (heap (set_global mro x st) x))
          = BaseConfig.ENVIRONMENT (field_values (heap st x))"
    by (simp add: s customize_def)
  from s o g g' c f attrs_run_customize(1) [of mro x st] show ?thesis
    by blast
qed

theorem customize_runs_once_witness:
  "example_mro (cls (heap fresh_state 0)) = Some customize
   \<and> BaseConfig__global_config fresh_state = ModelPrivateAttr
   \<and> BaseConfig__config_class_to_reload example_state = Assigned ''MyAppConfig''
   \<and> example_new ''MyAppConfig'' = Inr example_config
   \<and> example_mro ''MyAppConfig'' = Some customize
   \<and> ElasticsearchAPMConfig.ENVIRONMENT (ELASTIC_APM (field_values (heap fresh_state 0)))
       = ''PRODUCTION''
   \<and> BaseConfig.ENVIRONMENT (field_values (heap fresh_state 0)) = ''LOCAL''
   \<and> ElasticsearchAPMConfig.ENVIRONMENT
       (ELASTIC_APM (field_values (heap (set_global example_mro 0 fresh_state) 0)))
       = ''LOCAL''
   \<and> field_values (heap (snd (reload example_mro example_new example_state)) 1)
       = customize example_config"
proof -
  have a: "example_mro (cls (heap fresh_state 0)) = Some customize"
    by (simp add: example_mro_def)
  have u: "BaseConfig__global_config fresh_state = ModelPrivateAttr"
    by (simp add: fresh_state_attrs)
  have b: "BaseConfig__config_class_to_reload example_state = Assigned ''MyAppConfig''"
    by (simp add: example_state_attrs)
  have c: "example_new ''MyAppConfig'' = Inr example_config"
    by (simp add: example_new_def)
  have d: "example_mro ''MyAppConfig'' = Some customize"
    by (simp add: example_mro_def)
  have n: "next_addr example_state = 1"
    by (simp add: example_state_attrs)
  have p: "ElasticsearchAPMConfig.ENVIRONMENT (ELASTIC_APM (field_values (heap fresh_state 0)))
       = ''PRODUCTION''"
    by (simp add: fresh_state_attrs example_config_def)
  have l: "BaseConfig.ENVIRONMENT (field_values (heap fresh_state 0)) = ''LOCAL''"
    by (simp add: fresh_state_attrs example_config_def)
  note t = customize_runs_once
         [of example_mro fresh_state 0 customize example_state "''MyAppConfig''" example_new
             example_config customize, OF a b c d, unfolded n]
  from t have n1: "ElasticsearchAPMConfig.ENVIRONMENT
       (ELASTIC_APM (field_values (heap (set_global example_mro 0 fresh_state) 0)))
       = BaseConfig.ENVIRONMENT (field_values (heap (set_global example_mro 0 fresh_state) 0))"
    and n2: "BaseConfig.ENVIRONMENT (field_values (heap (set_global example_mro 0 fresh_state) 0))
       = BaseConfig.ENVIRONMENT (field_values (heap fresh_state 0))"
    by blast+
  have q: "ElasticsearchAPMConfig.ENVIRONMENT
       (ELASTIC_APM (field_values (heap (set_global example_mro 0 fresh_state) 0)))
       = ''LOCAL''"
    using n1 n2 l by simp
  from t a u b c d p l q show ?thesis by blast
qed

text \<open>
  C8, as stated, fails: \<^verbatim>\<open>BaseConfig.customize\<close> is not a no-op on an instance whose
  nested \<^verbatim>\<open>ELASTIC_APM.ENVIRONMENT\<close> differs from its top-level \<^verbatim>\<open>ENVIRONMENT\<close>.
\<close>

theorem customize_changes_nested_environment:
  "customize example_config \<noteq> example_config"
  by (simp add: customize_def example_config_def)

text \<open>
  C8, amended. \<^verbatim>\<open>BaseConfig.customize\<close> sets the nested
  \<^verbatim>\<open>ELASTIC_APM.ENVIRONMENT\<close> to the top-level \<^verbatim>\<open>ENVIRONMENT\<close> and leaves every other
  field unchanged; it leaves the instance as it is exactly when the two were equal
  already.
\<close>

theorem customize_frame:
  "BaseConfig.ENVIRONMENT (customize c) = BaseConfig.ENVIRONMENT c
   \<and> BaseConfig.more (customize c) = BaseConfig.more c
   \<and> ElasticsearchAPMConfig.more (ELASTIC_APM (customize c))
       = ElasticsearchAPMConfig.more (ELASTIC_APM c)
   \<and> ElasticsearchAPMConfig.ENVIRONMENT (ELASTIC_APM (customize c)) = BaseConfig.ENVIRONMENT c
   \<and> (customize c = c \<longleftrightarrow>
        ElasticsearchAPMConfig.ENVIRONMENT (ELASTIC_APM c) = BaseConfig.ENVIRONMENT c)"
proof -
  have "customize c = c \<longleftrightarrow>
        ElasticsearchAPMConfig.ENVIRONMENT (ELASTIC_APM c) = BaseConfig.ENVIRONMENT c"
  proof
    assume "customize c = c"
    then have "ElasticsearchAPMConfig.ENVIRONMENT (ELASTIC_APM (customize c))
        = ElasticsearchAPMConfig.ENVIRONMENT (ELASTIC_APM c)" by simp
    then show "ElasticsearchAPMConfig.ENVIRONMENT (ELASTIC_APM c) = BaseConfig.ENVIRONMENT c"
      by (simp add: customize_def)
  next
    assume "ElasticsearchAPMConfig.ENVIRONMENT (ELASTIC_APM c) = BaseConfig.ENVIRONMENT c"
    then show "customize c = c" by (simp add: customize_def)
  qed
  then show ?thesis by (simp add: customize_def)
qed

section \<open>Properties of the merger\<close>

lemma put_None: "put v None = v"
  by (cases v) simp_all

lemma put_Object_Object:
  "put (Object m) (Some (Object olds)) =
     Object (\<lambda>k. case m k of None \<Rightarrow> olds k | Some v \<Rightarrow> Some (put v (olds k)))"
  by (auto split: option.split)

lemma lookup_put_scalar:
  "lookup q val = Some (Scalar v) \<Longrightarrow> lookup q (put val old) = Some (Scalar v)"
proof (induction q arbitrary: val old)
  case Nil
  then show ?case by simp
next
  case (Cons k ks)
  then obtain m child where val: "val = Object m" and mk: "m k = Some child"
    and ch: "lookup ks child = Some (Scalar v)"
    by (auto split: MergedTree.splits option.splits)
  show ?case
  proof (cases old)
    case None
    then show ?thesis using val mk ch by simp
  next
    case (Some t)
    show ?thesis
    proof (cases t)
      case (Scalar x)
      then show ?thesis using Some val mk ch by simp
    next
      case (Object olds)
      then show ?thesis
        using Some val mk Cons.IH [OF ch, of "olds k"] by (simp add: put_Object_Object del: put.simps)
    qed
  qed
qed

lemma lookup_insert_at_supplied:
  "strip_prefix p K = Some q \<Longrightarrow> lookup q val = Some (Scalar v)
     \<Longrightarrow> lookup K (insert_at p val old) = Some (Scalar v)"
proof (induction p K arbitrary: old rule: strip_prefix.induct)
  case (1 K)
  then show ?case by (simp add: lookup_put_scalar)
next
  case (2 a p)
  then show ?case by simp
next
  case (3 a p b K)
  then show ?case by (auto split: if_splits option.splits MergedTree.splits)
qed

lemma lookup_put_missed:
  "misses K val \<Longrightarrow> lookup K (put val old) = lookup_opt K old"
proof (induction K arbitrary: val old)
  case Nil
  then show ?case by simp
next
  case (Cons k ks)
  then obtain m where val: "val = Object m" 
    by (auto split: MergedTree.splits)
  show ?case
  proof (cases "m k")
    case None
    then show ?thesis using val
      by (auto simp: lookup_opt_def split: option.splits MergedTree.splits)
  next
    case (Some child)
    with Cons.prems val have ms: "misses ks child" by simp
    show ?thesis
    proof (cases old)
      case None
      then show ?thesis using val Some Cons.IH [OF ms, of None]
        by (simp add: lookup_opt_def put_None)
    next
      case old: (Some t)
      show ?thesis
      proof (cases t)
        case (Scalar x)
        then show ?thesis using old val Some Cons.IH [OF ms, of None]
          by (simp add: lookup_opt_def put_None)
      next
        case (Object olds)
        then show ?thesis
          using old val Some Cons.IH [OF ms, of "olds k"]
          by (simp add: put_Object_Object lookup_opt_def del: put.simps split: option.splits)
      qed
    qed
  qed
qed

lemma lookup_insert_at_untouched:
  "\<not> touches_at p val K \<Longrightarrow> lookup K (insert_at p val old) = lookup_opt K old"
proof (induction p val K arbitrary: old rule: touches_at.induct)
  case (1 val K)
  then show ?case by (simp add: lookup_put_missed)
next
  case (2 a p val)
  then show ?case by simp
next
  case (3 a p val b K)
  show ?case
  proof (cases "a = b")
    case True
    with 3 have IH: "\<And>old. lookup K (insert_at p val old) = lookup_opt K old" by simp
    show ?thesis using True IH
      by (auto simp: lookup_opt_def split: option.splits MergedTree.splits)
  next
    case False
    then show ?thesis
      by (auto simp: lookup_opt_def split: option.splits MergedTree.splits)
  qed
qed

lemma lookup_insert_entry_supplied:
  "supplies e K v \<Longrightarrow> lookup K (insert_entry e t) = Some (Scalar v)"
  by (auto simp: supplies_def insert_entry_def lookup_insert_at_supplied split: option.splits)

lemma lookup_insert_entry_untouched:
  "\<not> touches e K \<Longrightarrow> lookup K (insert_entry e t) = lookup K t"
  by (simp add: touches_def insert_entry_def lookup_insert_at_untouched lookup_opt_def)

lemma lookup_fold_last_word:
  "last_word es K v \<Longrightarrow> lookup K (fold insert_entry (rev es) t) = Some (Scalar v)"
proof (induction es)
  case Nil
  then show ?case by simp
next
  case (Cons e es)
  then show ?case
    by (auto simp: lookup_insert_entry_supplied lookup_insert_entry_untouched
             split: if_splits)
qed

lemma lookup_insert_source_defined:
  "source_defines s K v \<Longrightarrow> lookup K (insert_source s t) = Some (Scalar v)"
  using lookup_fold_last_word [of "rev s" K v t]
  by (simp add: source_defines_def insert_source_def)

lemma lookup_insert_source_untouched:
  "\<not> source_touches s K \<Longrightarrow> lookup K (insert_source s t) = lookup K t"
  unfolding source_touches_def insert_source_def
  by (induction s arbitrary: t) (simp_all add: lookup_insert_entry_untouched)

lemma lookup_fold_untouched:
  "\<forall>s \<in> set ss. \<not> source_touches s K \<Longrightarrow> lookup K (fold insert_source ss t) = lookup K t"
  by (induction ss arbitrary: t) (simp_all add: lookup_insert_source_untouched)

lemma merge_winner:
  assumes "source_defines s K v" and "\<forall>h \<in> set hi. \<not> source_touches h K"
  shows "lookup K (merge (hi @ s # lo)) = Some (Scalar v)"
proof -
  have "merge (hi @ s # lo) =
      fold insert_source (rev hi) (insert_source s (fold insert_source (rev lo) (Object Map.empty)))"
    by (simp add: merge_def)
  then show ?thesis
    using assms by (simp add: lookup_fold_untouched lookup_insert_source_defined)
qed

lemma split_acc_seg:
  "seg_ok s \<Longrightarrow> split_acc ''__'' acc (s @ ''__'' @ rest) = (rev acc @ s) # split_acc ''__'' [] rest"
  by (induction s arbitrary: acc rule: seg_ok.induct) auto

lemma split_acc_last: "seg_ok s \<Longrightarrow> split_acc ''__'' acc s = [rev acc @ s]"
  by (induction s arbitrary: acc rule: seg_ok.induct) auto

lemma split_on_join:
  "list_all seg_ok segs \<Longrightarrow> segs \<noteq> [] \<Longrightarrow> split_on ''__'' (join ''__'' segs) = segs"
proof (induction "''__''" segs rule: join.induct)
  case 1
  then show ?case by simp
next
  case (2 s)
  then show ?case by (simp add: split_on_def split_acc_last)
next
  case (3 s t ts)
  then show ?case
    using split_acc_seg [of s "[]" "join ''__'' (t # ts)"]
    by (simp add: split_on_def)
qed

lemma sources_of_eq:
  "sources_of w settings_cls =
     [secret_files w, pyproject_toml w, toml_file w,
      env_entries (os_environ w), env_entries (env_file w), init_kwargs w]"
  by (simp add: sources_of_def settings_customise_sources_def)

text \<open>
  C1, amended. The list of sources consulted is, highest priority first: secret files,
  the \<^verbatim>\<open>pyproject.toml\<close> section, the TOML file, the environment, the \<^verbatim>\<open>.env\<close> file,
  the constructor arguments. If the source at position \<open>i\<close> of that list defines the
  leaf path \<open>K\<close> as \<open>v\<close>, and no source before it touches \<open>K\<close>, then the merged tree
  holds \<open>v\<close> at \<open>K\<close>, whatever the sources after it contain.
\<close>

theorem precedence_winner:
  assumes "i < length (sources_of w settings_cls)"
    and "source_defines (sources_of w settings_cls ! i) K v"
    and "\<forall>j<i. \<not> source_touches (sources_of w settings_cls ! j) K"
  shows "lookup K (build_values w settings_cls) = Some (Scalar v)
     \<and> settings_customise_sources settings_cls InitSettingsSource EnvSettingsSource
           DotEnvSettingsSource SecretsSettingsSource =
         [SecretsSettingsSource, PyprojectTomlConfigSettingsSource settings_cls,
          TomlConfigSettingsSource settings_cls, EnvSettingsSource, DotEnvSettingsSource,
          InitSettingsSource]
     \<and> sources_of w settings_cls =
         [secret_files w, pyproject_toml w, toml_file w,
          env_entries (os_environ w), env_entries (env_file w), init_kwargs w]"
proof -
  let ?S = "sources_of w settings_cls"
  have split: "?S = take i ?S @ ?S ! i # drop (Suc i) ?S"
    using assms(1) by (simp add: id_take_nth_drop)
  have hi: "\<forall>h \<in> set (take i ?S). \<not> source_touches h K"
  proof
    fix h assume "h \<in> set (take i ?S)"
    then obtain j where "j < i" "j < length ?S" "h = ?S ! j"
      using assms(1) by (auto simp: in_set_conv_nth)
    with assms(3) show "\<not> source_touches h K" by simp
  qed
  have "lookup K (merge (take i ?S @ ?S ! i # drop (Suc i) ?S)) = Some (Scalar v)"
    using assms(2) hi by (rule merge_winner)
  with split have "lookup K (build_values w settings_cls) = Some (Scalar v)"
    by (simp add: build_values_def)
  then show ?thesis
    by (simp add: sources_of_eq settings_customise_sources_def)
qed

lemma example_sources:
  "sources_of example_origins c =
     [[([''REDIS'', ''PASSWORD''], Scalar ''hunter2'')],
      [],
      [([''ELASTIC_APM''], Object [''ENVIRONMENT'' \<mapsto> Scalar ''PRODUCTION''])],
      [([''ELASTIC_APM'', ''ENVIRONMENT''], Scalar ''DEV''), ([''REDIS'', ''PORT''], Scalar ''6379'')],
      [([''DEBUG''], Scalar ''true'')],
      [([''DEBUG''], Scalar ''false'')]]"
  by (simp add: sources_of_eq example_origins_def env_entries_def env_ignore_empty_def
        env_nested_delimiter_def split_on_def)

theorem precedence_winner_witness:
  "(2::nat) < length (sources_of example_origins ''MyAppConfig'')
   \<and> source_defines (sources_of example_origins ''MyAppConfig'' ! 2)
        [''ELASTIC_APM'', ''ENVIRONMENT''] ''PRODUCTION''
   \<and> source_defines (sources_of example_origins ''MyAppConfig'' ! 3)
        [''ELASTIC_APM'', ''ENVIRONMENT''] ''DEV''
   \<and> \<not> source_touches (sources_of example_origins ''MyAppConfig'' ! 0)
         [''ELASTIC_APM'', ''ENVIRONMENT'']
   \<and> \<not> source_touches (sources_of example_origins ''MyAppConfig'' ! 1)
         [''ELASTIC_APM'', ''ENVIRONMENT'']
   \<and> lookup [''ELASTIC_APM'', ''ENVIRONMENT''] (build_values example_origins ''MyAppConfig'')
       = Some (Scalar ''PRODUCTION'')"
proof -
  let ?S = "sources_of example_origins ''MyAppConfig''"
  let ?K = "[''ELASTIC_APM'', ''ENVIRONMENT'']"
  have a: "(2::nat) < length ?S" by (simp add: example_sources)
  have b: "source_defines (?S ! 2) ?K ''PRODUCTION''"
    by (simp add: example_sources source_defines_def supplies_def)
  have b': "source_defines (?S ! 3) ?K ''DEV''"
    by (simp add: example_sources source_defines_def supplies_def touches_def)
  have c0: "\<not> source_touches (?S ! 0) ?K"
    by (simp add: example_sources source_touches_def touches_def)
  have c1: "\<not> source_touches (?S ! 1) ?K"
    by (simp add: example_sources source_touches_def touches_def)
  have c: "\<forall>j<2. \<not> source_touches (?S ! j) ?K"
    using c0 c1 by (simp add: less_Suc_eq numeral_2_eq_2)
  from precedence_winner [OF a b c] a b b' c0 c1 show ?thesis by blast
qed

text \<open>
  C1, as stated, fails: the TOML file and the environment both define \<^verbatim>\<open>A.B\<close>, no
  higher source has a value at \<^verbatim>\<open>A.B\<close>, and yet the merged tree does not hold the
  TOML file's value there, because the \<^verbatim>\<open>pyproject.toml\<close> section sets the scalar
  \<^verbatim>\<open>A=5\<close> and the higher-priority shape replaces the subtree.
\<close>

theorem higher_scalar_hides_lower_leaf:
  "source_defines (sources_of cx_origins ''MyAppConfig'' ! 2) [''A'', ''B''] ''6''
   \<and> source_defines (sources_of cx_origins ''MyAppConfig'' ! 3) [''A'', ''B''] ''7''
   \<and> lookup [''A'', ''B''] (merge [sources_of cx_origins ''MyAppConfig'' ! 0]) = None
   \<and> lookup [''A'', ''B''] (merge [sources_of cx_origins ''MyAppConfig'' ! 1]) = None
   \<and> lookup [''A'', ''B''] (build_values cx_origins ''MyAppConfig'') \<noteq> Some (Scalar ''6'')"
  by (simp add: sources_of_eq cx_origins_def env_entries_def env_ignore_empty_def
        env_nested_delimiter_def split_on_def source_defines_def supplies_def
        build_values_def merge_def insert_source_def insert_entry_def)

lemma put_singleton:
  "put (Object [k \<mapsto> v]) (Some (Object olds)) = Object (olds(k \<mapsto> put v (olds k)))"
  by (auto simp: put_Object_Object simp del: put.simps)

lemma insert_at_nest: "insert_at ks v old = put (nest ks v) old"
proof (induction ks arbitrary: old)
  case Nil
  then show ?case by simp
next
  case (Cons k ks)
  show ?case
  proof (cases old)
    case None
    then show ?thesis by (simp add: Cons.IH put_None)
  next
    case (Some t)
    show ?thesis
    proof (cases t)
      case (Scalar x)
      then show ?thesis using Some by (simp add: Cons.IH put_None)
    next
      case (Object olds)
      then show ?thesis using Some
        by (simp add: Cons.IH put_singleton del: put.simps)
    qed
  qed
qed

lemma insert_entry_nested:
  "insert_entry (p # ps, v) t = insert_entry ([p], nest ps v) t"
  by (cases t) (simp_all add: insert_entry_def insert_at_nest)

lemma insert_source_nested:
  "insert_source (pre @ (p # ps, v) # post) t = insert_source (pre @ ([p], nest ps v) # post) t"
  by (simp add: insert_source_def insert_entry_nested [of p ps v])

lemma merge_nested:
  "merge (hi @ (pre @ (p # ps, v) # post) # lo)
     = merge (hi @ (pre @ ([p], nest ps v) # post) # lo)"
  by (simp add: merge_def insert_source_nested [of pre p ps v post])

lemma env_entries_append: "env_entries (xs @ ys) = env_entries xs @ env_entries ys"
  by (simp add: env_entries_def)

lemma env_entries_nonempty:
  "v \<noteq> [] \<Longrightarrow>
     env_entries ((k, v) # raw) = (split_on env_nested_delimiter k, Scalar v) # env_entries raw"
  by (simp add: env_entries_def)

lemma env_entries_empty: "env_entries ((k, []) # raw) = env_entries raw"
  by (simp add: env_entries_def env_ignore_empty_def)

text \<open>
  C9, amended. For a key path whose segments survive the round trip through \<^verbatim>\<open>__\<close>
  and a value that is not the empty string, the environment-style pair
  \<^verbatim>\<open>P__C1__...=v\<close> becomes the entry at the path \<^verbatim>\<open>[P, C1, ...]\<close>, and a source holding
  it merges to the same tree as a source of the same precedence holding the nested
  entry \<^verbatim>\<open>{P: {C1: ... v}}\<close> in its place; so any materializer yields the same instance.
\<close>

theorem env_key_same_as_nested:
  assumes "list_all seg_ok (p # ps)" and "v \<noteq> []"
  shows "env_entries [(join env_nested_delimiter (p # ps), v)] = [(p # ps, Scalar v)]
     \<and> merge (hi @ env_entries (pre @ (join env_nested_delimiter (p # ps), v) # post) # lo)
       = merge (hi @ (env_entries pre @ ([p], nest ps (Scalar v)) # env_entries post) # lo)
     \<and> materialize
         (merge (hi @ env_entries (pre @ (join env_nested_delimiter (p # ps), v) # post) # lo))
       = materialize
           (merge (hi @ (env_entries pre @ ([p], nest ps (Scalar v)) # env_entries post) # lo))"
proof -
  have key: "split_on env_nested_delimiter (join env_nested_delimiter (p # ps)) = p # ps"
    using assms(1) by (simp add: env_nested_delimiter_def split_on_join del: join.simps)
  have one: "env_entries [(join env_nested_delimiter (p # ps), v)] = [(p # ps, Scalar v)]"
    using assms(2) key by (simp add: env_entries_nonempty del: join.simps) (simp add: env_entries_def)
  have src: "env_entries (pre @ (join env_nested_delimiter (p # ps), v) # post)
      = env_entries pre @ (p # ps, Scalar v) # env_entries post"
    using assms(2) key by (simp add: env_entries_append env_entries_nonempty del: join.simps)
  have "merge (hi @ env_entries (pre @ (join env_nested_delimiter (p # ps), v) # post) # lo)
       = merge (hi @ (env_entries pre @ ([p], nest ps (Scalar v)) # env_entries post) # lo)"
    unfolding src by (rule merge_nested)
  with one show ?thesis by simp
qed

theorem env_key_same_as_nested_witness:
  "list_all seg_ok [''PARENT'', ''CHILD''] \<and> ''7'' \<noteq> []
   \<and> join env_nested_delimiter [''PARENT'', ''CHILD''] = ''PARENT__CHILD''
   \<and> nest [''CHILD''] (Scalar ''7'') = Object [''CHILD'' \<mapsto> Scalar ''7'']
   \<and> env_entries [(''PARENT__CHILD'', ''7'')] = [([''PARENT'', ''CHILD''], Scalar ''7'')]
   \<and> merge [env_entries [(''PARENT__CHILD'', ''7'')]]
     = merge [[([''PARENT''], nest [''CHILD''] (Scalar ''7''))]]"
proof -
  have a: "list_all seg_ok [''PARENT'', ''CHILD'']" by simp
  have b: "''7'' \<noteq> []" by simp
  have j: "join env_nested_delimiter [''PARENT'', ''CHILD''] = ''PARENT__CHILD''"
    by (simp add: env_nested_delimiter_def)
  have n: "nest [''CHILD''] (Scalar ''7'') = Object [''CHILD'' \<mapsto> Scalar ''7'']"
    by simp
  have e: "env_entries [] = []" by (simp add: env_entries_def)
  note t = env_key_same_as_nested [OF a b, of "[]" "[]" "[]" "[]" id, unfolded append_Nil e j]
  from t a b j n show ?thesis by blast
qed

text \<open>
  C9, as stated, fails at the empty value: \<^verbatim>\<open>PARENT__CHILD=\<close> in an environment-style
  source is ignored, the nested entry \<^verbatim>\<open>{PARENT: {CHILD: ""}}\<close> is not.
\<close>

theorem empty_env_value_not_nested_entry:
  "merge [env_entries [(join env_nested_delimiter [''PARENT'', ''CHILD''], [])]]
     \<noteq> merge [[([''PARENT''], nest [''CHILD''] (Scalar []))]]"
proof
  assume "merge [env_entries [(join env_nested_delimiter [''PARENT'', ''CHILD''], [])]]
     = merge [[([''PARENT''], nest [''CHILD''] (Scalar []))]]"
  then have "lookup [''PARENT'', ''CHILD'']
       (merge [env_entries [(join env_nested_delimiter [''PARENT'', ''CHILD''], [])]])
     = lookup [''PARENT'', ''CHILD''] (merge [[([''PARENT''], nest [''CHILD''] (Scalar []))]])"
    by simp
  then show False
    by (simp add: env_entries_def env_ignore_empty_def merge_def insert_source_def
          insert_entry_def)
qed

text \<open>
  C10. With \<^verbatim>\<open>env_ignore_empty\<close> set, a key with the empty value in the environment or
  in the \<^verbatim>\<open>.env\<close> file yields the entries, and so the merged tree, that the same
  origin without the key yields.
\<close>

theorem empty_env_value_ignored:
  "env_ignore_empty
   \<and> env_entries (pre @ (k, []) # post) = env_entries (pre @ post)
   \<and> build_values (w\<lparr>os_environ := pre @ (k, []) # post\<rparr>) settings_cls
     = build_values (w\<lparr>os_environ := pre @ post\<rparr>) settings_cls
   \<and> build_values (w\<lparr>env_file := pre @ (k, []) # post\<rparr>) settings_cls
     = build_values (w\<lparr>env_file := pre @ post\<rparr>) settings_cls"
proof -
  have e: "env_entries (pre @ (k, []) # post) = env_entries (pre @ post)"
    by (simp add: env_entries_append env_entries_empty)
  show ?thesis
    by (simp add: e build_values_def sources_of_eq env_ignore_empty_def)
qed

end
